theory Spec2Isabelle
  imports Complex_Main "HOL-Library.Multiset"
begin

section \<open>The notebook \<open>Adding_AI_to_your_app.ipynb\<close>\<close>

text \<open>
  The repository is one notebook. Its only function is \<open>load_data\<close>; the remaining
  code cells are top-level statements that call pandas and scikit-learn. The cells are
  modelled in the order in which they stand. Everything a cell reads from outside the
  program (the file system, the generators of random numbers) is an explicit argument.
\<close>

subsection \<open>Exceptions\<close>

datatype py_error =
    FileNotFoundError
  | NotADirectoryError
  | IsADirectoryError
  | PermissionError
  | UnicodeDecodeError
  | IndexError
  | NotFittedError

subsection \<open>The file system\<close>

text \<open>
  A path names a directory with its listing, a file, or nothing. A file carries the
  outcome of \<open>open(file)\<close> followed by \<open>f.read()\<close>: the decoded text, or the exception
  one of the two raises (no permission, bytes that do not decode).
\<close>

datatype node = Dir "string list" | File "py_error + string"

type_synonym filesystem = "string \<rightharpoonup> node"

definition listdir :: "filesystem \<Rightarrow> string \<Rightarrow> py_error + string list" where
  "listdir fs path =
     (case fs path of
        None \<Rightarrow> Inl FileNotFoundError
      | Some (File c) \<Rightarrow> Inl NotADirectoryError
      | Some (Dir names) \<Rightarrow> Inr names)"

definition open_read :: "filesystem \<Rightarrow> string \<Rightarrow> py_error + string" where
  "open_read fs file =
     (case fs file of
        None \<Rightarrow> Inl FileNotFoundError
      | Some (Dir names) \<Rightarrow> Inl IsADirectoryError
      | Some (File c) \<Rightarrow> c)"

subsection \<open>Strings and paths\<close>

definition startswith :: "string \<Rightarrow> string \<Rightarrow> bool" where
  "startswith s prefix = (take (length prefix) s = prefix)"

definition endswith :: "string \<Rightarrow> string \<Rightarrow> bool" where
  "endswith s suffix =
     (length suffix \<le> length s \<and> drop (length s - length suffix) s = suffix)"

text \<open>\<open>os.path.join\<close> of two components, as \<open>posixpath\<close> computes it.\<close>

definition join :: "string \<Rightarrow> string \<Rightarrow> string" where
  "join a b =
     (if startswith b ''/'' then b
      else if a = [] \<or> endswith a ''/'' then a @ b
      else a @ ''/'' @ b)"

definition data_dir :: string where
  "data_dir = ''data''"

definition pos_data_dir :: string where
  "pos_data_dir = join data_dir ''pos''"

definition neg_data_dir :: string where
  "neg_data_dir = join data_dir ''neg''"

subsection \<open>The loader\<close>

text \<open>A record is the dictionary \<open>{"text": text, "label": label}\<close>.\<close>

record data_record =
  "text" :: string
  label :: int

text \<open>
  The \<open>for file in files\<close> loop of \<open>load_data\<close>, with \<open>records\<close> as accumulator. The
  first file that cannot be opened or read ends the loop with its exception. The
  source's variables \<open>label\<close> and \<open>text\<close> are written \<open>lbl\<close> and \<open>txt\<close>, since the
  record's fields have these names.
\<close>

fun read_files ::
  "filesystem \<Rightarrow> string list \<Rightarrow> int \<Rightarrow> data_record list \<Rightarrow> py_error + data_record list"
where
  "read_files fs [] lbl records = Inr records"
| "read_files fs (file # files) lbl records =
     (case open_read fs file of
        Inl e \<Rightarrow> Inl e
      | Inr txt \<Rightarrow> read_files fs files lbl (records @ [\<lparr>text = txt, label = lbl\<rparr>]))"

definition load_data :: "filesystem \<Rightarrow> string \<Rightarrow> int \<Rightarrow> py_error + data_record list" where
  "load_data fs filepath lbl =
     (case listdir fs filepath of
        Inl e \<Rightarrow> Inl e
      | Inr names \<Rightarrow>
          read_files fs
            [join filepath filename. filename \<leftarrow> names, endswith filename ''.txt'']
            lbl [])"

subsection \<open>Loading both directories\<close>

text \<open>
  \<open>pos = load_data(pos_data_dir, 1)\<close>, \<open>neg = load_data(neg_data_dir, 0)\<close> and the list
  \<open>pos + neg\<close>. No cell has a \<open>try\<close>: an exception of either call ends the run.
\<close>

definition load_records :: "filesystem \<Rightarrow> py_error + data_record list" where
  "load_records fs =
     (case load_data fs pos_data_dir 1 of
        Inl e \<Rightarrow> Inl e
      | Inr pos \<Rightarrow>
          (case load_data fs neg_data_dir 0 of
             Inl e \<Rightarrow> Inl e
           | Inr neg \<Rightarrow> Inr (pos @ neg)))"

subsection \<open>The library calls\<close>

text \<open>
  pandas and scikit-learn are not part of the repository. What the notebook's calls need
  of them is modelled from the spec, and whatever the spec leaves open (the generators of
  random numbers, the tokeniser, the stop-word list, the weighting formula, the
  classifier) is a parameter, collected in the record \<open>sklearn\<close>. The libraries' own
  validation of their arguments is outside the model.
\<close>

record 'm sklearn =
  permutation :: "nat \<Rightarrow> nat \<Rightarrow> nat list"
  tokenise :: "string \<Rightarrow> string list"
  english :: "string list"
  weighting :: "nat \<Rightarrow> nat \<Rightarrow> rat"
  fit :: "rat list list \<Rightarrow> int list \<Rightarrow> 'm"
  predict :: "'m \<Rightarrow> rat list list \<Rightarrow> int list"

text \<open>
  Modelled from the spec: \<open>sklearn.utils.shuffle\<close> is missing from the sources. The spec
  says that it randomises the record order. The notebook passes it the frame and no
  \<open>random_state\<close>, so the order it draws is not a function of any seed of the program:
  \<open>order\<close> is the row order drawn in this run, an input of the run.
\<close>

definition shuffle :: "nat list \<Rightarrow> 'a list \<Rightarrow> 'a list" where
  "shuffle order rows = map (nth rows) order"

text \<open>
  Modelled from the spec: \<open>sklearn.model_selection.train_test_split\<close> is missing from the
  sources. The spec gives it the full collection, the split fraction and the random seed,
  and has it return a partition that holds about the fraction on the test side and is
  reproducible for the same seed. The model cuts a permutation of the row indices, drawn
  by the seeded generator \<open>permutation sk random_state n\<close>, after the first
  \<open>\<lceil>test_size * n\<rceil>\<close> indices. The fraction is a rational number: the notebook's \<open>0.3\<close> is
  \<open>3 / 10\<close>.
\<close>

definition split_indices ::
  "'m sklearn \<Rightarrow> nat \<Rightarrow> rat \<Rightarrow> nat \<Rightarrow> nat list \<times> nat list"
where
  "split_indices sk n_samples test_size random_state =
     (let n_test = nat \<lceil>test_size * of_nat n_samples\<rceil>;
          indices = permutation sk random_state n_samples
      in (drop n_test indices, take n_test indices))"

definition train_test_split ::
  "'m sklearn \<Rightarrow> 'a list \<Rightarrow> 'b list \<Rightarrow> rat \<Rightarrow> nat \<Rightarrow> 'a list \<times> 'a list \<times> 'b list \<times> 'b list"
where
  "train_test_split sk X y test_size random_state =
     (case split_indices sk (length X) test_size random_state of
        (train, test) \<Rightarrow> (map (nth X) train, map (nth X) test, map (nth y) train, map (nth y) test))"

text \<open>
  Modelled from the spec: \<open>TfidfVectorizer\<close> is missing from the sources. The spec has
  \<open>fit\<close> build a fixed vocabulary and an inverse-document-frequency weighting from the
  training texts, leaving out a static stop-word list, and has \<open>transform\<close> produce one
  vector over the fitted vocabulary per text, ignoring other terms and failing before a
  fit. The object holds its constructor's settings and, once fitted, the vocabulary and
  the weights.
\<close>

record vectoriser =
  analyzer :: "string \<Rightarrow> string list"
  stop_words :: "string list"
  idf_weight :: "nat \<Rightarrow> nat \<Rightarrow> rat"
  vocabulary :: "string list option"
  idf :: "rat list"

definition TfidfVectorizer :: "'m sklearn \<Rightarrow> vectoriser" where
  "TfidfVectorizer sk =
     \<lparr>analyzer = tokenise sk, stop_words = english sk, idf_weight = weighting sk,
      vocabulary = None, idf = []\<rparr>"

definition terms_of :: "vectoriser \<Rightarrow> string \<Rightarrow> string list" where
  "terms_of v txt = filter (\<lambda>t. t \<notin> set (stop_words v)) (analyzer v txt)"

definition tfidf_row :: "string list \<Rightarrow> rat list \<Rightarrow> string list \<Rightarrow> rat list" where
  "tfidf_row voc weights doc = map2 (\<lambda>t w. of_nat (count_list doc t) * w) voc weights"

definition fit_transform :: "vectoriser \<Rightarrow> string list \<Rightarrow> rat list list \<times> vectoriser" where
  "fit_transform v texts =
     (let docs = map (terms_of v) texts;
          voc = remdups (concat docs);
          weights = map (\<lambda>t. idf_weight v (length docs) (length (filter (\<lambda>d. t \<in> set d) docs))) voc
      in (map (tfidf_row voc weights) docs, v\<lparr>vocabulary := Some voc, idf := weights\<rparr>))"

definition transform :: "vectoriser \<Rightarrow> string list \<Rightarrow> py_error + rat list list \<times> vectoriser" where
  "transform v texts =
     (case vocabulary v of
        None \<Rightarrow> Inl NotFittedError
      | Some voc \<Rightarrow> Inr (map (\<lambda>txt. tfidf_row voc (idf v) (terms_of v txt)) texts, v))"

subsection \<open>The evaluator\<close>

text \<open>
  Modelled from the spec: the cells that compute \<open>train_accuracy\<close> and \<open>test_accuracy\<close> are
  left to the reader, and \<open>sklearn.metrics.accuracy_score\<close> is missing from the sources.
  The spec defines accuracy as the count of matches divided by the total count, for
  parallel sequences of labels. For no labels at all the quotient is undefined, and the
  model returns \<open>None\<close>.
\<close>

definition matches :: "int list \<Rightarrow> int list \<Rightarrow> nat" where
  "matches y_true y_pred = length (filter (\<lambda>(a, p). a = p) (zip y_true y_pred))"

definition accuracy_score :: "int list \<Rightarrow> int list \<Rightarrow> rat option" where
  "accuracy_score y_true y_pred =
     (if y_true = [] then None
      else Some (of_nat (matches y_true y_pred) / of_nat (length y_true)))"

subsection \<open>The cells after the loader\<close>

text \<open>\<open>list(xs)[i]\<close> for an index that is not negative.\<close>

definition item :: "'a list \<Rightarrow> nat \<Rightarrow> py_error + 'a" where
  "item xs i = (if i < length xs then Inr (xs ! i) else Inl IndexError)"

text \<open>The notebook's top-level variables once the last cell before Part 2 has run.\<close>

record 'm notebook =
  records_df :: "data_record list"
  X_train :: "string list"
  X_test :: "string list"
  y_train :: "int list"
  y_test :: "int list"
  vectoriser :: vectoriser
  x_train :: "rat list list"
  model :: 'm
  y_train_pred :: "int list"
  x_test :: "rat list list"
  y_test_pred :: "int list"
  example_text :: string
  example_label :: int
  x_vect :: "rat list list"
  y_pred :: "int list"

text \<open>
  The cells from \<open>records_df = shuffle(...)\<close> to \<open>y_pred = model.predict(x_vect)\<close>, run on
  the loaded records. \<open>reset_index(drop=True)\<close> renumbers the rows, so a row's index is its
  position in the list.
\<close>

definition run_cells :: "'m sklearn \<Rightarrow> nat list \<Rightarrow> data_record list \<Rightarrow> py_error + 'm notebook" where
  "run_cells sk order records =
     (let df = shuffle order records;
          X = map text df;
          y = map label df
      in case train_test_split sk X y (3 / 10) 42 of
        (Xtr, Xte, ytr, yte) \<Rightarrow>
          (case fit_transform (TfidfVectorizer sk) Xtr of
             (xtr, v1) \<Rightarrow>
               (let m = fit sk xtr ytr in
                case transform v1 Xte of
                  Inl e \<Rightarrow> Inl e
                | Inr (xte, v2) \<Rightarrow>
                    (case item Xte 1 of
                       Inl e \<Rightarrow> Inl e
                     | Inr ex_text \<Rightarrow>
                         (case item yte 1 of
                            Inl e \<Rightarrow> Inl e
                          | Inr ex_label \<Rightarrow>
                              (case transform v2 [ex_text] of
                                 Inl e \<Rightarrow> Inl e
                               | Inr (xv, v3) \<Rightarrow>
                                   Inr \<lparr>records_df = df, X_train = Xtr, X_test = Xte,
                                        y_train = ytr, y_test = yte, vectoriser = v3,
                                        x_train = xtr, model = m,
                                        y_train_pred = predict sk m xtr,
                                        x_test = xte, y_test_pred = predict sk m xte,
                                        example_text = ex_text, example_label = ex_label,
                                        x_vect = xv, y_pred = predict sk m xv\<rparr>))))))"

definition pipeline :: "'m sklearn \<Rightarrow> filesystem \<Rightarrow> nat list \<Rightarrow> py_error + 'm notebook" where
  "pipeline sk fs order =
     (case load_records fs of
        Inl e \<Rightarrow> Inl e
      | Inr records \<Rightarrow> run_cells sk order records)"

subsection \<open>Concrete inputs\<close>

text \<open>
  A corpus of two positive and two negative reviews with a file that is not a review, the
  same corpus with a positive review that cannot be opened, the same corpus with a negative
  review that does not decode, a corpus of three reviews (its test side has one text, so
  \<open>list(X_test)[1]\<close> is out of range), and a directory tree without the two data
  directories.
\<close>

definition tiny_fs :: filesystem where
  "tiny_fs =
     [''data/pos'' \<mapsto> Dir [''a.txt'', ''notes.md'', ''b.txt''],
      ''data/neg'' \<mapsto> Dir [''c.txt'', ''d.txt''],
      ''data/pos/a.txt'' \<mapsto> File (Inr ''a good film''),
      ''data/pos/notes.md'' \<mapsto> File (Inl PermissionError),
      ''data/pos/b.txt'' \<mapsto> File (Inr ''great fun''),
      ''data/neg/c.txt'' \<mapsto> File (Inr ''a bad film''),
      ''data/neg/d.txt'' \<mapsto> File (Inr ''dull plot'')]"




definition bare_fs :: filesystem where
  "bare_fs = [''data'' \<mapsto> Dir [''readme.md'']]"

text \<open>
  A directory with three text files, one of two lines and one empty, a file that is not
  text, and a copy that cannot be opened and has \<open>.txt\<close> inside its name, not at its end.
\<close>

definition shelf_fs :: filesystem where
  "shelf_fs =
     [''shelf'' \<mapsto> Dir [''x.txt'', ''cover.png'', ''y.txt'', ''x.txt.bak'', ''z.txt''],
      ''shelf/x.txt'' \<mapsto> File (Inr (''slow start'' @ [CHR 0x0A] @ ''strong end'')),
      ''shelf/cover.png'' \<mapsto> File (Inl UnicodeDecodeError),
      ''shelf/y.txt'' \<mapsto> File (Inr ''''),
      ''shelf/x.txt.bak'' \<mapsto> File (Inl PermissionError),
      ''shelf/z.txt'' \<mapsto> File (Inr ''fine'')]"

text \<open>
  A stand-in for the library's parameters: the seeded generator reverses the indices,
  terms are the words between blanks, the stop words are \<open>a\<close> and \<open>the\<close>, a term found in
  \<open>df\<close> of \<open>n\<close> texts weighs \<open>(n + 1) / (df + 1)\<close>, and the classifier answers 1 for every
  row.
\<close>

fun words :: "string \<Rightarrow> string \<Rightarrow> string list" where
  "words w [] = (if w = [] then [] else [w])"
| "words w (c # cs) =
     (if c = CHR '' '' then (if w = [] then words [] cs else w # words [] cs)
      else words (w @ [c]) cs)"

definition toy_sklearn :: "unit sklearn" where
  "toy_sklearn =
     \<lparr>permutation = (\<lambda>seed n. rev [0..<n]),
      tokenise = words [],
      english = [''a'', ''the''],
      weighting = (\<lambda>n df. of_nat (n + 1) / of_nat (df + 1)),
      fit = (\<lambda>x y. ()),
      predict = (\<lambda>m x. map (\<lambda>row. 1) x)\<rparr>"

section \<open>Properties of the loader\<close>

lemmas fs_eval = load_data_def listdir_def open_read_def pos_data_dir_def neg_data_dir_def
  data_dir_def join_def startswith_def endswith_def

lemma read_files_Inr:
  "read_files fs files lbl acc = Inr rs \<Longrightarrow>
     \<exists>new. rs = acc @ new \<and>
       list_all2 (\<lambda>f r. open_read fs f = Inr (text r) \<and> label r = lbl) files new"
proof (induction files arbitrary: acc)
  case Nil
  then show ?case by simp
next
  case (Cons f files)
  then show ?case
    by (fastforce split: sum.splits)
qed

lemma read_files_total:
  "\<forall>f\<in>set files. \<exists>t. open_read fs f = Inr t \<Longrightarrow> \<exists>rs. read_files fs files lbl acc = Inr rs"
  by (induction files arbitrary: acc) (auto split: sum.splits)


lemma txt_files:
  "[join filepath filename. filename \<leftarrow> names, endswith filename ''.txt''] =
     map (join filepath) (filter (\<lambda>filename. endswith filename ''.txt'') names)"
  by (induction names) simp_all

lemma load_data_Inr:
  assumes "listdir fs filepath = Inr names" and "load_data fs filepath lbl = Inr rs"
  shows "list_all2 (\<lambda>filename r. open_read fs (join filepath filename) = Inr (text r) \<and> label r = lbl)
           (filter (\<lambda>filename. endswith filename ''.txt'') names) rs"
proof -
  let ?files = "map (join filepath) (filter (\<lambda>filename. endswith filename ''.txt'') names)"
  have "read_files fs ?files lbl [] = Inr rs"
    using assms by (simp add: load_data_def txt_files)
  then have "list_all2 (\<lambda>f r. open_read fs f = Inr (text r) \<and> label r = lbl) ?files rs"
    using read_files_Inr by fastforce
  then show ?thesis
    by (simp add: list_all2_map1)
qed

lemma load_data_label:
  assumes "load_data fs filepath lbl = Inr rs" and "r \<in> set rs"
  shows "label r = lbl"
proof -
  obtain names where n: "listdir fs filepath = Inr names"
    using assms(1) by (auto simp: load_data_def split: sum.splits)
  from load_data_Inr [OF n assms(1)] assms(2) show ?thesis
    by (auto simp: list_all2_conv_all_nth in_set_conv_nth)
qed

lemma load_data_total:
  assumes "listdir fs filepath = Inr names"
    and "\<forall>filename\<in>set names. endswith filename ''.txt'' \<longrightarrow>
           (\<exists>t. open_read fs (join filepath filename) = Inr t)"
  shows "\<exists>rs. load_data fs filepath lbl = Inr rs"
  using assms read_files_total [of "map (join filepath) (filter (\<lambda>filename. endswith filename ''.txt'') names)" fs lbl "[]"]
  by (auto simp: load_data_def txt_files)


text \<open>
  Claim C3. Every record that \<open>load_data(pos_data_dir, 1)\<close> returns has label 1, every
  record that \<open>load_data(neg_data_dir, 0)\<close> returns has label 0, and so every record of
  the combined list \<open>pos + neg\<close> has a label in \<open>{0, 1}\<close>.
\<close>

theorem load_data_labels:
  assumes "load_data fs pos_data_dir 1 = Inr pos" and "load_data fs neg_data_dir 0 = Inr neg"
  shows "(\<forall>r\<in>set pos. label r = 1) \<and> (\<forall>r\<in>set neg. label r = 0) \<and>
         load_records fs = Inr (pos @ neg) \<and> (\<forall>r\<in>set (pos @ neg). label r \<in> {0, 1})"
  using assms load_data_label [OF assms(1)] load_data_label [OF assms(2)]
  by (auto simp: load_records_def)

theorem load_data_labels_witness:
  "load_data tiny_fs pos_data_dir 1 =
     Inr [\<lparr>text = ''a good film'', label = 1\<rparr>, \<lparr>text = ''great fun'', label = 1\<rparr>] \<and>
   load_data tiny_fs neg_data_dir 0 =
     Inr [\<lparr>text = ''a bad film'', label = 0\<rparr>, \<lparr>text = ''dull plot'', label = 0\<rparr>] \<and>
   load_records tiny_fs =
     Inr [\<lparr>text = ''a good film'', label = 1\<rparr>, \<lparr>text = ''great fun'', label = 1\<rparr>,
          \<lparr>text = ''a bad film'', label = 0\<rparr>, \<lparr>text = ''dull plot'', label = 0\<rparr>]"
proof -
  have p: "load_data tiny_fs pos_data_dir 1 =
     Inr [\<lparr>text = ''a good film'', label = 1\<rparr>, \<lparr>text = ''great fun'', label = 1\<rparr>]"
    by (simp add: fs_eval tiny_fs_def)
  have n: "load_data tiny_fs neg_data_dir 0 =
     Inr [\<lparr>text = ''a bad film'', label = 0\<rparr>, \<lparr>text = ''dull plot'', label = 0\<rparr>]"
    by (simp add: fs_eval tiny_fs_def)
  from load_data_labels [OF p n] p n show ?thesis by simp
qed

lemma endswith_iff: "endswith s suffix \<longleftrightarrow> (\<exists>stem. s = stem @ suffix)"
proof
  assume "endswith s suffix"
  then have "s = take (length s - length suffix) s @ suffix"
    by (metis append_take_drop_id endswith_def)
  then show "\<exists>stem. s = stem @ suffix" ..
next
  assume "\<exists>stem. s = stem @ suffix"
  then show "endswith s suffix"
    by (auto simp: endswith_def)
qed

lemma listdir_Dir: "fs path = Some (Dir names) \<Longrightarrow> listdir fs path = Inr names"
  by (simp add: listdir_def)

lemma open_read_Inr_iff: "open_read fs f = Inr t \<longleftrightarrow> fs f = Some (File (Inr t))"
  by (auto simp: open_read_def split: option.splits node.splits)

lemma read_files_readable:
  "\<forall>n\<in>set ns. open_read fs (g n) = Inr (c n) \<Longrightarrow>
     read_files fs (map g ns) lbl acc = Inr (acc @ map (\<lambda>n. \<lparr>text = c n, label = lbl\<rparr>) ns)"
  by (induction ns arbitrary: acc) simp_all

lemma load_data_readable:
  assumes "fs filepath = Some (Dir names)"
    and "\<forall>filename\<in>set names. endswith filename ''.txt'' \<longrightarrow>
           fs (join filepath filename) = Some (File (Inr (contents filename)))"
  shows "load_data fs filepath lbl =
           Inr (map (\<lambda>filename. \<lparr>text = contents filename, label = lbl\<rparr>)
                  (filter (\<lambda>filename. endswith filename ''.txt'') names))"
proof -
  have l: "listdir fs filepath = Inr names"
    using assms(1) by (rule listdir_Dir)
  have "\<forall>n\<in>set (filter (\<lambda>filename. endswith filename ''.txt'') names).
          open_read fs (join filepath n) = Inr (contents n)"
    using assms(2) by (simp add: open_read_Inr_iff)
  from read_files_readable [OF this, of lbl "[]"] show ?thesis
    using l by (simp add: load_data_def txt_files)
qed

lemma load_data_nodes:
  assumes "fs filepath = Some (Dir names)" and "load_data fs filepath lbl = Inr rs"
  shows "list_all2 (\<lambda>filename r. fs (join filepath filename) = Some (File (Inr (text r))) \<and> label r = lbl)
           (filter (\<lambda>filename. endswith filename ''.txt'') names) rs"
proof -
  have "listdir fs filepath = Inr names"
    using assms(1) by (rule listdir_Dir)
  from load_data_Inr [OF this assms(2)] show ?thesis
    by (simp add: open_read_Inr_iff)
qed

lemma list_all2_maps:
  "list_all2 (\<lambda>x y. f x = g y \<and> h y = c) xs ys \<Longrightarrow>
     map f xs = map g ys \<and> map h ys = map (\<lambda>x. c) xs"
  by (induction rule: list_all2_induct) simp_all

lemma shelf_load:
  "load_data shelf_fs ''shelf'' 7 =
     Inr [\<lparr>text = ''slow start'' @ [CHR 0x0A] @ ''strong end'', label = 7\<rparr>,
          \<lparr>text = '''', label = 7\<rparr>, \<lparr>text = ''fine'', label = 7\<rparr>]"
  by (simp add: fs_eval shelf_fs_def)

lemma shelf_nodes:
  "shelf_fs ''shelf'' = Some (Dir [''x.txt'', ''cover.png'', ''y.txt'', ''x.txt.bak'', ''z.txt''])"
  "shelf_fs (join ''shelf'' ''x.txt'') = Some (File (Inr (''slow start'' @ [CHR 0x0A] @ ''strong end'')))"
  "shelf_fs (join ''shelf'' ''y.txt'') = Some (File (Inr ''''))"
  "shelf_fs (join ''shelf'' ''z.txt'') = Some (File (Inr ''fine''))"
  "shelf_fs (join ''shelf'' ''cover.png'') = Some (File (Inl UnicodeDecodeError))"
  "shelf_fs (join ''shelf'' ''x.txt.bak'') = Some (File (Inl PermissionError))"
  by (simp_all add: shelf_fs_def join_def startswith_def endswith_def)

text \<open>
  Claim C4. For a directory with the listing \<open>names\<close>, the list \<open>load_data\<close> returns
  corresponds one to one, in order, to the names ending in \<open>.txt\<close>: it has as many records
  as there are such names, and each record holds the text that the file of its name holds
  and the given label. So none of these files is skipped, no record is added, and a name
  without the suffix gives no record. If each of these files holds readable text,
  \<open>load_data\<close> does return, whatever the other files are. A name ends in \<open>.txt\<close> when it
  is some stem followed by these four characters.
\<close>

theorem load_data_one_record_per_txt_file:
  assumes "fs filepath = Some (Dir names)"
  shows "(load_data fs filepath lbl = Inr rs \<longrightarrow>
            length rs = length (filter (\<lambda>filename. endswith filename ''.txt'') names) \<and>
            list_all2 (\<lambda>filename r. fs (join filepath filename) = Some (File (Inr (text r))) \<and> label r = lbl)
              (filter (\<lambda>filename. endswith filename ''.txt'') names) rs) \<and>
         ((\<forall>filename\<in>set names. endswith filename ''.txt'' \<longrightarrow>
              (\<exists>t. fs (join filepath filename) = Some (File (Inr t)))) \<longrightarrow>
            (\<exists>rs'. load_data fs filepath lbl = Inr rs')) \<and>
         (endswith filename ''.txt'' \<longleftrightarrow> (\<exists>stem. filename = stem @ ''.txt''))"
proof -
  have "length rs = length (filter (\<lambda>filename. endswith filename ''.txt'') names) \<and>
        list_all2 (\<lambda>filename r. fs (join filepath filename) = Some (File (Inr (text r))) \<and> label r = lbl)
              (filter (\<lambda>filename. endswith filename ''.txt'') names) rs"
    if "load_data fs filepath lbl = Inr rs"
    using load_data_nodes [OF assms that] by (simp add: list_all2_lengthD)
  moreover have "\<exists>rs'. load_data fs filepath lbl = Inr rs'"
    if "\<forall>filename\<in>set names. endswith filename ''.txt'' \<longrightarrow>
              (\<exists>t. fs (join filepath filename) = Some (File (Inr t)))"
  proof -
    have "listdir fs filepath = Inr names"
      using assms by (rule listdir_Dir)
    from load_data_total [OF this, of lbl] that show ?thesis
      by (simp add: open_read_Inr_iff)
  qed
  ultimately show ?thesis
    using endswith_iff [of filename "''.txt''"] by blast
qed

theorem load_data_one_record_per_txt_file_witness:
  "shelf_fs ''shelf'' = Some (Dir [''x.txt'', ''cover.png'', ''y.txt'', ''x.txt.bak'', ''z.txt'']) \<and>
   shelf_fs (join ''shelf'' ''x.txt'') = Some (File (Inr (''slow start'' @ [CHR 0x0A] @ ''strong end''))) \<and>
   shelf_fs (join ''shelf'' ''y.txt'') = Some (File (Inr '''')) \<and>
   shelf_fs (join ''shelf'' ''z.txt'') = Some (File (Inr ''fine'')) \<and>
   shelf_fs (join ''shelf'' ''cover.png'') = Some (File (Inl UnicodeDecodeError)) \<and>
   shelf_fs (join ''shelf'' ''x.txt.bak'') = Some (File (Inl PermissionError)) \<and>
   \<not> endswith ''x.txt.bak'' ''.txt'' \<and>
   filter (\<lambda>filename. endswith filename ''.txt'') [''x.txt'', ''cover.png'', ''y.txt'', ''x.txt.bak'', ''z.txt''] =
     [''x.txt'', ''y.txt'', ''z.txt''] \<and>
   load_data shelf_fs ''shelf'' 7 =
     Inr [\<lparr>text = ''slow start'' @ [CHR 0x0A] @ ''strong end'', label = 7\<rparr>,
          \<lparr>text = '''', label = 7\<rparr>, \<lparr>text = ''fine'', label = 7\<rparr>]"
proof -
  have f: "filter (\<lambda>filename. endswith filename ''.txt'') [''x.txt'', ''cover.png'', ''y.txt'', ''x.txt.bak'', ''z.txt''] =
     [''x.txt'', ''y.txt'', ''z.txt'']"
    by (simp add: endswith_def)
  from load_data_one_record_per_txt_file [of shelf_fs "''shelf''"
      "[''x.txt'', ''cover.png'', ''y.txt'', ''x.txt.bak'', ''z.txt'']" 7
      "[\<lparr>text = ''slow start'' @ [CHR 0x0A] @ ''strong end'', label = 7\<rparr>,
          \<lparr>text = '''', label = 7\<rparr>, \<lparr>text = ''fine'', label = 7\<rparr>]" "''x.txt.bak''"] shelf_nodes f shelf_load
  show ?thesis by (simp add: endswith_def)
qed

text \<open>
  Claim C10. For a directory with the listing \<open>names\<close> whose files ending in \<open>.txt\<close> hold
  the texts \<open>contents\<close>, \<open>load_data\<close> returns exactly the list with one record per such name,
  in the order of the listing, the text of a record being all that its file holds and its
  label the given one. Whenever \<open>load_data\<close> returns, the files of these names hold the
  texts of the records, in this order. For a listing without such a name the result is the
  empty list, not an exception.
\<close>

theorem load_data_listing_order:
  assumes "fs filepath = Some (Dir names)"
  shows "((\<forall>filename\<in>set names. endswith filename ''.txt'' \<longrightarrow>
              fs (join filepath filename) = Some (File (Inr (contents filename)))) \<longrightarrow>
            load_data fs filepath lbl =
              Inr (map (\<lambda>filename. \<lparr>text = contents filename, label = lbl\<rparr>)
                     (filter (\<lambda>filename. endswith filename ''.txt'') names))) \<and>
         (load_data fs filepath lbl = Inr rs \<longrightarrow>
            map (\<lambda>filename. fs (join filepath filename)) (filter (\<lambda>filename. endswith filename ''.txt'') names) =
              map (\<lambda>r. Some (File (Inr (text r)))) rs \<and>
            map label rs = map (\<lambda>filename. lbl) (filter (\<lambda>filename. endswith filename ''.txt'') names)) \<and>
         (filter (\<lambda>filename. endswith filename ''.txt'') names = [] \<longrightarrow>
            load_data fs filepath lbl = Inr [])"
proof -
  let ?txt = "filter (\<lambda>filename. endswith filename ''.txt'') names"
  have l: "listdir fs filepath = Inr names"
    using assms by (rule listdir_Dir)
  have "map (\<lambda>filename. fs (join filepath filename)) ?txt = map (\<lambda>r. Some (File (Inr (text r)))) rs \<and>
        map label rs = map (\<lambda>filename. lbl) ?txt"
    if "load_data fs filepath lbl = Inr rs"
    using load_data_nodes [OF assms that] by (rule list_all2_maps)
  moreover have "load_data fs filepath lbl = Inr []" if "?txt = []"
    using that l by (simp add: load_data_def txt_files)
  ultimately show ?thesis
    using load_data_readable [of fs filepath names contents lbl] assms by blast
qed

theorem load_data_listing_order_witness:
  "shelf_fs ''shelf'' = Some (Dir [''x.txt'', ''cover.png'', ''y.txt'', ''x.txt.bak'', ''z.txt'']) \<and>
   shelf_fs (join ''shelf'' ''x.txt'') = Some (File (Inr (''slow start'' @ [CHR 0x0A] @ ''strong end''))) \<and>
   shelf_fs (join ''shelf'' ''y.txt'') = Some (File (Inr '''')) \<and>
   shelf_fs (join ''shelf'' ''z.txt'') = Some (File (Inr ''fine'')) \<and>
   load_data shelf_fs ''shelf'' 7 =
     Inr [\<lparr>text = ''slow start'' @ [CHR 0x0A] @ ''strong end'', label = 7\<rparr>,
          \<lparr>text = '''', label = 7\<rparr>, \<lparr>text = ''fine'', label = 7\<rparr>] \<and>
   bare_fs data_dir = Some (Dir [''readme.md'']) \<and>
   filter (\<lambda>filename. endswith filename ''.txt'') [''readme.md''] = [] \<and>
   load_data bare_fs data_dir 0 = Inr []"
proof -
  let ?contents = "\<lambda>filename. if filename = ''x.txt'' then ''slow start'' @ [CHR 0x0A] @ ''strong end''
                      else if filename = ''y.txt'' then '''' else ''fine''"
  have m: "bare_fs data_dir = Some (Dir [''readme.md''])"
    by (simp add: bare_fs_def data_dir_def)
  have e: "filter (\<lambda>filename. endswith filename ''.txt'') [''readme.md''] = []"
    by (simp add: endswith_def)
  from load_data_listing_order [of shelf_fs "''shelf''"
      "[''x.txt'', ''cover.png'', ''y.txt'', ''x.txt.bak'', ''z.txt'']" ?contents 7
      "[\<lparr>text = ''slow start'' @ [CHR 0x0A] @ ''strong end'', label = 7\<rparr>,
          \<lparr>text = '''', label = 7\<rparr>, \<lparr>text = ''fine'', label = 7\<rparr>]"]
    load_data_listing_order [of bare_fs data_dir "[''readme.md'']" "\<lambda>filename. ''''" 0 "[]"]
    shelf_nodes shelf_load m e
  show ?thesis by (simp add: endswith_def)
qed

section \<open>Properties of the split\<close>

lemma permutation_facts:
  assumes "mset p = mset [0..<n]"
  shows "length p = n" and "distinct p" and "set p = {0..<n}"
proof -
  show "length p = n" using mset_eq_length [OF assms] by simp
  show "distinct p" using mset_eq_imp_distinct_iff [OF assms] by simp
  show "set p = {0..<n}" using mset_eq_setD [OF assms] by simp
qed

lemma n_test_le:
  fixes test_size :: rat
  assumes "0 \<le> test_size" and "test_size \<le> 1"
  shows "nat \<lceil>test_size * of_nat n\<rceil> \<le> n"
proof -
  have "test_size * of_nat n \<le> of_int (int n)"
    using assms mult_right_mono [of test_size 1 "of_nat n"] by simp
  then have "\<lceil>test_size * of_nat n\<rceil> \<le> int n"
    by (simp only: ceiling_le_iff)
  then show ?thesis by simp
qed

lemma n_test_close:
  fixes test_size :: rat
  assumes "0 \<le> test_size"
  shows "test_size * of_nat n \<le> of_nat (nat \<lceil>test_size * of_nat n\<rceil>)"
    and "of_nat (nat \<lceil>test_size * of_nat n\<rceil>) < test_size * of_nat n + 1"
proof -
  have "0 \<le> test_size * of_nat n"
    using assms by simp
  then have nn: "0 \<le> \<lceil>test_size * of_nat n\<rceil>"
    by (simp add: zero_le_ceiling)
  have eq: "(of_nat (nat \<lceil>test_size * of_nat n\<rceil>) :: rat) = of_int \<lceil>test_size * of_nat n\<rceil>"
    using nn by simp
  show "test_size * of_nat n \<le> of_nat (nat \<lceil>test_size * of_nat n\<rceil>)"
    unfolding eq by (rule le_of_int_ceiling)
  show "of_nat (nat \<lceil>test_size * of_nat n\<rceil>) < test_size * of_nat n + 1"
    unfolding eq using ceiling_correct [of "test_size * of_nat n"] by linarith
qed

lemma map_nth_perm:
  assumes "mset p = mset [0..<length X]"
  shows "mset (map (nth X) p) = mset X"
proof -
  have "mset (map (nth X) p) = image_mset (nth X) (mset p)"
    by (simp only: mset_map)
  also have "\<dots> = image_mset (nth X) (mset [0..<length X])"
    by (simp only: assms)
  also have "\<dots> = mset (map (nth X) [0..<length X])"
    by (simp only: mset_map)
  also have "\<dots> = mset X"
    by (simp only: map_nth)
  finally show ?thesis .
qed


lemma split_indices_perm:
  assumes "mset (permutation sk random_state n) = mset [0..<n]"
    and "split_indices sk n test_size random_state = (train, test)"
  shows "mset (train @ test) = mset [0..<n]"
    and "distinct (train @ test)"
    and "length train + length test = n"
proof -
  let ?p = "permutation sk random_state n"
  let ?k = "nat \<lceil>test_size * of_nat n\<rceil>"
  have tr: "train = drop ?k ?p" and te: "test = take ?k ?p"
    using assms(2) by (simp_all add: split_indices_def Let_def)
  have "mset (train @ test) = mset (take ?k ?p @ drop ?k ?p)"
    unfolding tr te by (simp only: mset_append add.commute)
  then show m: "mset (train @ test) = mset [0..<n]"
    using assms(1) by (simp only: append_take_drop_id)
  show "distinct (train @ test)"
    using mset_eq_imp_distinct_iff [OF m] by simp
  show "length train + length test = n"
    using mset_eq_length [OF m] by simp
qed

lemma split_indices_n_test:
  assumes "mset (permutation sk random_state n) = mset [0..<n]"
    and "0 \<le> test_size" and "test_size \<le> 1"
    and "split_indices sk n test_size random_state = (train, test)"
  shows "length test = nat \<lceil>test_size * of_nat n\<rceil>"
proof -
  have "length (permutation sk random_state n) = n"
    using permutation_facts(1) [OF assms(1)] .
  moreover have "test = take (nat \<lceil>test_size * of_nat n\<rceil>) (permutation sk random_state n)"
    using assms(4) by (simp add: split_indices_def Let_def)
  ultimately show ?thesis
    using n_test_le [OF assms(2,3), of n] by simp
qed

text \<open>
  Claim C2. Whenever the seeded generator hands \<open>train_test_split\<close> a permutation of the
  row indices and the fraction lies between 0 and 1, the train and the test indices are
  disjoint, together they are all the indices, the sizes of the two sides add up to the
  size of the collection, every record is on exactly one side (the two sides together hold
  the records of the collection, each as often as the collection does), and the size of the
  test side is the fraction of the size, rounded up: it exceeds the exact share by less
  than one record. The notebook's fraction is \<open>3 / 10\<close>.
\<close>

theorem train_test_split_partition:
  assumes "mset (permutation sk random_state (length X)) = mset [0..<length X]"
    and "length y = length X"
    and "0 \<le> test_size" and "test_size \<le> 1"
    and "split_indices sk (length X) test_size random_state = (train, test)"
  shows "train_test_split sk X y test_size random_state =
           (map (nth X) train, map (nth X) test, map (nth y) train, map (nth y) test) \<and>
         length train + length test = length X \<and>
         set train \<inter> set test = {} \<and>
         set train \<union> set test = {0..<length X} \<and>
         distinct train \<and> distinct test \<and>
         mset (map (nth X) train @ map (nth X) test) = mset X \<and>
         mset (map (nth y) train @ map (nth y) test) = mset y \<and>
         test_size * of_nat (length X) \<le> of_nat (length test) \<and>
         of_nat (length test) < test_size * of_nat (length X) + 1"
proof -
  note p = split_indices_perm [OF assms(1,5)]
  have s: "set (train @ test) = {0..<length X}"
    using mset_eq_setD [OF p(1)] by simp
  have mX: "mset (map (nth X) (train @ test)) = mset X"
    using map_nth_perm [OF p(1)] .
  have "mset (train @ test) = mset [0..<length y]"
    using p(1) assms(2) by simp
  then have my: "mset (map (nth y) (train @ test)) = mset y"
    by (rule map_nth_perm)
  have k: "length test = nat \<lceil>test_size * of_nat (length X)\<rceil>"
    using split_indices_n_test [OF assms(1,3,4,5)] .
  show ?thesis
    using p(2,3) s mX my n_test_close [OF assms(3), of "length X"] assms(5)
    by (simp add: train_test_split_def k Un_commute)
qed

lemma n_test_4: "nat \<lceil>(3 / 10 :: rat) * 4\<rceil> = 2"
proof -
  have "\<lceil>(3 / 10 :: rat) * 4\<rceil> = 2"
    by (rule ceiling_unique) simp_all
  then show ?thesis by simp
qed

theorem train_test_split_partition_witness:
  "mset (permutation toy_sklearn 42 (length [''p'', ''q'', ''r'', ''s''])) = mset [0..<length [''p'', ''q'', ''r'', ''s'']] \<and>
   length [1, 1, 0, 0 :: int] = length [''p'', ''q'', ''r'', ''s''] \<and>
   split_indices toy_sklearn (length [''p'', ''q'', ''r'', ''s'']) (3 / 10) 42 = ([1, 0], [3, 2]) \<and>
   train_test_split toy_sklearn [''p'', ''q'', ''r'', ''s''] [1, 1, 0, 0 :: int] (3 / 10) 42 =
     ([''q'', ''p''], [''s'', ''r''], [1, 1], [0, 0]) \<and>
   (0 :: rat) \<le> 3 / 10 \<and> (3 / 10 :: rat) \<le> 1 \<and>
   (3 / 10 :: rat) * 4 \<le> 2 \<and> (2 :: rat) < 3 / 10 * 4 + 1"
proof -
  have a: "mset (permutation toy_sklearn 42 (length [''p'', ''q'', ''r'', ''s''])) = mset [0..<length [''p'', ''q'', ''r'', ''s'']]"
    by (simp add: toy_sklearn_def)
  have b: "length [1, 1, 0, 0 :: int] = length [''p'', ''q'', ''r'', ''s'']"
    by simp
  have c: "split_indices toy_sklearn (length [''p'', ''q'', ''r'', ''s'']) (3 / 10) 42 = ([1, 0], [3, 2])"
    using n_test_4 by (simp add: split_indices_def toy_sklearn_def upt_rec eval_nat_numeral)
  from train_test_split_partition [OF a b _ _ c] a b c show ?thesis
    by simp
qed

section \<open>Properties of the evaluator\<close>

lemma matches_card:
  assumes "length predicted = length actual"
  shows "matches actual predicted = card {i. i < length actual \<and> actual ! i = predicted ! i}"
proof -
  have "{i. i < length (zip actual predicted) \<and> (case zip actual predicted ! i of (a, p) \<Rightarrow> a = p)} =
        {i. i < length actual \<and> actual ! i = predicted ! i}"
    using assms by auto
  then show ?thesis
    by (simp add: matches_def length_filter_conv_card)
qed

lemma matches_le: "matches actual predicted \<le> length actual"
proof -
  have "matches actual predicted \<le> length (zip actual predicted)"
    unfolding matches_def by (rule length_filter_le)
  then show ?thesis by simp
qed

text \<open>
  Claim C5. For parallel sequences of labels that are not empty, the accuracy is the number
  of positions at which the two sequences agree divided by the number of positions, and it
  lies between 0 and 1. For \<open>[1, 0, 1]\<close> and \<open>[1, 1, 1]\<close> it is \<open>2 / 3\<close>.
\<close>

theorem accuracy_score_ratio:
  "accuracy_score [1, 0, 1] [1, 1, 1] = Some (2 / 3) \<and>
   (\<forall>actual predicted. length predicted = length actual \<and> actual \<noteq> [] \<longrightarrow>
      (\<exists>a. accuracy_score actual predicted = Some a \<and>
         a = of_nat (card {i. i < length actual \<and> actual ! i = predicted ! i}) / of_nat (length actual) \<and>
         0 \<le> a \<and> a \<le> 1))"
proof -
  have ex: "accuracy_score [1, 0, 1] [1, 1, 1] = Some (2 / 3)"
    by (simp add: accuracy_score_def matches_def)
  have "\<exists>a. accuracy_score actual predicted = Some a \<and>
         a = of_nat (card {i. i < length actual \<and> actual ! i = predicted ! i}) / of_nat (length actual) \<and>
         0 \<le> a \<and> a \<le> 1"
    if "length predicted = length actual" and "actual \<noteq> []" for actual predicted
  proof -
    have "(of_nat (matches actual predicted) :: rat) \<le> of_nat (length actual)"
      using matches_le [of actual predicted] by (simp only: of_nat_le_iff)
    moreover have "(0::rat) < of_nat (length actual)"
      using that(2) by simp
    ultimately have "(of_nat (matches actual predicted) :: rat) / of_nat (length actual) \<le> 1"
      by (simp add: divide_le_eq_1)
    then show ?thesis
      using that by (simp add: accuracy_score_def matches_card)
  qed
  with ex show ?thesis by blast
qed

theorem accuracy_score_ratio_witness:
  "length [1, 1, 0, 1 :: int] = length [1, 0, 0, 1 :: int] \<and> [1, 0, 0, 1 :: int] \<noteq> [] \<and>
   accuracy_score [1, 0, 0, 1] [1, 1, 0, 1] = Some (3 / 4) \<and>
   (0::rat) \<le> 3 / 4 \<and> (3 / 4 :: rat) \<le> 1"
proof -
  have "accuracy_score [1, 0, 0, 1] [1, 1, 0, 1] = Some (3 / 4)"
    by (simp add: accuracy_score_def matches_def)
  with accuracy_score_ratio show ?thesis by simp
qed

text \<open>
  For no labels at all there is no accuracy: the premise of claim C5 cannot be widened to
  the empty pair of sequences, which are of equal length.
\<close>

theorem accuracy_score_empty_counterexample:
  "length ([] :: int list) = length ([] :: int list) \<and> accuracy_score [] [] = None \<and>
   \<not> (\<exists>a. accuracy_score [] [] = Some a \<and> 0 \<le> a \<and> a \<le> 1)"
  by (simp add: accuracy_score_def)

section \<open>Properties of the cells after the loader\<close>

lemma transform_frame: "transform v texts = Inr (m, v') \<Longrightarrow> v' = v"
  by (auto simp: transform_def split: option.splits)

lemma vocabulary_fit_transform:
  "vocabulary (snd (fit_transform v texts)) = Some (remdups (concat (map (terms_of v) texts)))"
  by (simp add: fit_transform_def Let_def)

lemma run_cells_Inr:
  assumes "run_cells sk order recs = Inr s"
  shows "records_df s = shuffle order recs"
    and "(X_train s, X_test s, y_train s, y_test s) =
           train_test_split sk (map text (shuffle order recs)) (map label (shuffle order recs)) (3 / 10) 42"
    and "(x_train s, vectoriser s) = fit_transform (TfidfVectorizer sk) (X_train s)"
    and "transform (vectoriser s) (X_test s) = Inr (x_test s, vectoriser s)"
    and "transform (vectoriser s) [example_text s] = Inr (x_vect s, vectoriser s)"
    and "item (X_test s) 1 = Inr (example_text s)"
proof -
  obtain Xtr Xte ytr yte where sp:
    "train_test_split sk (map text (shuffle order recs)) (map label (shuffle order recs)) (3 / 10) 42 =
       (Xtr, Xte, ytr, yte)"
    by (metis prod_cases4)
  obtain xtr v1 where ft: "fit_transform (TfidfVectorizer sk) Xtr = (xtr, v1)"
    by (metis surj_pair)
  from assms sp ft obtain xte v2 where t1: "transform v1 Xte = Inr (xte, v2)"
    by (auto simp: run_cells_def Let_def split: sum.splits)
  from assms sp ft t1 obtain ex_text where i1: "item Xte 1 = Inr ex_text"
    by (auto simp: run_cells_def Let_def split: sum.splits)
  from assms sp ft t1 i1 obtain ex_label where i2: "item yte 1 = Inr ex_label"
    by (auto simp: run_cells_def Let_def split: sum.splits)
  from assms sp ft t1 i1 i2 obtain xv v3 where t2: "transform v2 [ex_text] = Inr (xv, v3)"
    by (auto simp: run_cells_def Let_def split: sum.splits)
  have v: "v2 = v1" "v3 = v1"
    using transform_frame [OF t1] transform_frame [OF t2] by simp_all
  from assms sp ft t1 i1 i2 t2 have s:
    "records_df s = shuffle order recs" "X_train s = Xtr" "X_test s = Xte" "y_train s = ytr"
    "y_test s = yte" "vectoriser s = v3" "x_train s = xtr" "x_test s = xte"
    "example_text s = ex_text" "x_vect s = xv"
    by (auto simp: run_cells_def Let_def)
  show "records_df s = shuffle order recs" by (rule s)
  show "(X_train s, X_test s, y_train s, y_test s) =
           train_test_split sk (map text (shuffle order recs)) (map label (shuffle order recs)) (3 / 10) 42"
    using s sp by simp
  show "(x_train s, vectoriser s) = fit_transform (TfidfVectorizer sk) (X_train s)"
    using s ft v by simp
  show "transform (vectoriser s) (X_test s) = Inr (x_test s, vectoriser s)"
    using s t1 v by simp
  show "transform (vectoriser s) [example_text s] = Inr (x_vect s, vectoriser s)"
    using s t2 v by simp
  show "item (X_test s) 1 = Inr (example_text s)"
    using s i1 by simp
qed

lemma run_cells_total:
  assumes "train_test_split sk (map text (shuffle order recs)) (map label (shuffle order recs)) (3 / 10) 42 =
             (Xtr, Xte, ytr, yte)"
    and "1 < length Xte" and "1 < length yte"
  shows "\<exists>s. run_cells sk order recs = Inr s \<and> X_train s = Xtr \<and> X_test s = Xte"
  using assms
  by (simp add: run_cells_def Let_def transform_def fit_transform_def item_def TfidfVectorizer_def
      split: prod.splits)

text \<open>
  Claim C8. In a run that reaches its last cell, the vectoriser the notebook ends with is
  the one that the single \<open>fit_transform\<close> call produced from the training side of the
  split: its vocabulary is made of the terms of the training texts alone. The two later
  \<open>transform\<close> calls, on the test texts and on the example, are made on this vectoriser and
  return it as it was, as every successful \<open>transform\<close> call does.
\<close>

theorem vectoriser_fitted_once_on_training_texts:
  assumes "pipeline sk fs order = Inr s"
  shows "(\<exists>recs. load_records fs = Inr recs \<and>
            (X_train s, X_test s, y_train s, y_test s) =
              train_test_split sk (map text (shuffle order recs)) (map label (shuffle order recs)) (3 / 10) 42) \<and>
         (x_train s, vectoriser s) = fit_transform (TfidfVectorizer sk) (X_train s) \<and>
         vocabulary (vectoriser s) =
           Some (remdups (concat (map (terms_of (TfidfVectorizer sk)) (X_train s)))) \<and>
         transform (vectoriser s) (X_test s) = Inr (x_test s, vectoriser s) \<and>
         transform (vectoriser s) [example_text s] = Inr (x_vect s, vectoriser s) \<and>
         (\<forall>v texts m v'. transform v texts = Inr (m, v') \<longrightarrow> v' = v)"
proof -
  from assms obtain recs where l: "load_records fs = Inr recs" and r: "run_cells sk order recs = Inr s"
    by (auto simp: pipeline_def split: sum.splits)
  note c = run_cells_Inr [OF r]
  have "vectoriser s = snd (fit_transform (TfidfVectorizer sk) (X_train s))"
    using c(3) by (metis snd_conv)
  then have "vocabulary (vectoriser s) =
           Some (remdups (concat (map (terms_of (TfidfVectorizer sk)) (X_train s))))"
    by (simp only: vocabulary_fit_transform)
  then show ?thesis
    using l c(2,3,4,5) transform_frame by blast
qed

lemma tiny_records:
  "load_records tiny_fs =
     Inr [\<lparr>text = ''a good film'', label = 1\<rparr>, \<lparr>text = ''great fun'', label = 1\<rparr>,
          \<lparr>text = ''a bad film'', label = 0\<rparr>, \<lparr>text = ''dull plot'', label = 0\<rparr>]"
  by (simp add: load_records_def fs_eval tiny_fs_def)

lemma toy_run:
  "\<exists>s. pipeline toy_sklearn tiny_fs [0, 1, 2, 3] = Inr s \<and>
       X_train s = [''great fun'', ''a good film''] \<and> X_test s = [''dull plot'', ''a bad film'']"
proof -
  have "train_test_split toy_sklearn
          (map text (shuffle [0, 1, 2, 3] [\<lparr>text = ''a good film'', label = 1\<rparr>, \<lparr>text = ''great fun'', label = 1\<rparr>,
          \<lparr>text = ''a bad film'', label = 0\<rparr>, \<lparr>text = ''dull plot'', label = 0\<rparr>]))
          (map label (shuffle [0, 1, 2, 3] [\<lparr>text = ''a good film'', label = 1\<rparr>, \<lparr>text = ''great fun'', label = 1\<rparr>,
          \<lparr>text = ''a bad film'', label = 0\<rparr>, \<lparr>text = ''dull plot'', label = 0\<rparr>])) (3 / 10) 42 =
        ([''great fun'', ''a good film''], [''dull plot'', ''a bad film''], [1, 1], [0, 0])"
    using n_test_4
    by (simp add: train_test_split_def split_indices_def toy_sklearn_def shuffle_def upt_rec eval_nat_numeral)
  from run_cells_total [OF this] show ?thesis
    by (simp add: pipeline_def tiny_records)
qed

theorem vectoriser_fitted_once_on_training_texts_witness:
  "\<exists>s. pipeline toy_sklearn tiny_fs [0, 1, 2, 3] = Inr s \<and>
       X_train s = [''great fun'', ''a good film''] \<and>
       X_test s = [''dull plot'', ''a bad film''] \<and>
       vocabulary (vectoriser s) = Some [''great'', ''fun'', ''good'', ''film''] \<and>
       transform (vectoriser s) (X_test s) = Inr (x_test s, vectoriser s)"
proof -
  from toy_run obtain s where s: "pipeline toy_sklearn tiny_fs [0, 1, 2, 3] = Inr s"
    "X_train s = [''great fun'', ''a good film'']" "X_test s = [''dull plot'', ''a bad film'']"
    by blast
  have "remdups (concat (map (terms_of (TfidfVectorizer toy_sklearn)) [''great fun'', ''a good film''])) =
          [''great'', ''fun'', ''good'', ''film'']"
    by (simp add: terms_of_def TfidfVectorizer_def toy_sklearn_def)
  with vectoriser_fitted_once_on_training_texts [OF s(1)] s show ?thesis
    by auto
qed

section \<open>Exceptions end the run\<close>








section \<open>The shuffle and the seed\<close>

lemma four_indices:
  assumes "mset p = mset [0..<4]"
  obtains a b c d where "p = [a, b, c, d]" and "distinct [a, b, c, d]"
    and "a < 4" and "b < 4" and "c < 4" and "d < 4"
proof -
  note f = permutation_facts [OF assms]
  from f(1) obtain a b c d where p: "p = [a, b, c, d]"
    by (auto simp: length_Suc_conv eval_nat_numeral)
  from f(3) p have "a < 4" "b < 4" "c < 4" "d < 4"
    by auto
  with p f(2) that show ?thesis by blast
qed

lemma rotated_pair:
  assumes "distinct [t0, t1, t2, t3]" and "a < 4" and "b < 4" and "a \<noteq> b"
  shows "{[t0, t1, t2, t3] ! a, [t0, t1, t2, t3] ! b} \<noteq> {[t1, t2, t3, t0] ! a, [t1, t2, t3, t0] ! b}"
proof -
  have "a = 0 \<or> a = 1 \<or> a = 2 \<or> a = 3" "b = 0 \<or> b = 1 \<or> b = 2 \<or> b = 3"
    using assms(2,3) by auto
  with assms(1,4) show ?thesis
    by (auto simp: doubleton_eq_iff)
qed

text \<open>
  Claim C1. The seed \<open>42\<close> reaches \<open>train_test_split\<close> only; \<open>shuffle\<close> is called without
  one. For the corpus \<open>tiny_fs\<close> and any seeded generator that yields a permutation of four
  indices, a run in which \<open>shuffle\<close> keeps the loaded order and a run in which it rotates
  the rows by one both reach the last cell, and they differ in the set of test texts and in
  the set of training texts: the same corpus and the same seed do not give the same
  partition.
\<close>

theorem unseeded_shuffle_changes_partition:
  assumes "mset (permutation sk 42 4) = mset [0..<4]"
  shows "\<exists>s1 s2. pipeline sk tiny_fs [0, 1, 2, 3] = Inr s1 \<and>
           pipeline sk tiny_fs [1, 2, 3, 0] = Inr s2 \<and>
           set (X_test s1) \<noteq> set (X_test s2) \<and> set (X_train s1) \<noteq> set (X_train s2)"
proof -
  let ?recs = "[\<lparr>text = ''a good film'', label = 1\<rparr>, \<lparr>text = ''great fun'', label = 1\<rparr>,
          \<lparr>text = ''a bad film'', label = 0\<rparr>, \<lparr>text = ''dull plot'', label = 0\<rparr>]"
  let ?X1 = "[''a good film'', ''great fun'', ''a bad film'', ''dull plot'']"
  let ?X2 = "[''great fun'', ''a bad film'', ''dull plot'', ''a good film'']"
  from assms obtain a b c d where p: "permutation sk 42 4 = [a, b, c, d]"
    and d: "distinct [a, b, c, d]" and lt: "a < 4" "b < 4" "c < 4" "d < 4"
    by (rule four_indices)
  have X1: "map text (shuffle [0, 1, 2, 3] ?recs) = ?X1"
    and X2: "map text (shuffle [1, 2, 3, 0] ?recs) = ?X2"
    by (simp_all add: shuffle_def)
  have sp1: "train_test_split sk (map text (shuffle [0, 1, 2, 3] ?recs)) (map label (shuffle [0, 1, 2, 3] ?recs)) (3 / 10) 42 =
      ([?X1 ! c, ?X1 ! d], [?X1 ! a, ?X1 ! b],
       [map label (shuffle [0, 1, 2, 3] ?recs) ! c, map label (shuffle [0, 1, 2, 3] ?recs) ! d],
       [map label (shuffle [0, 1, 2, 3] ?recs) ! a, map label (shuffle [0, 1, 2, 3] ?recs) ! b])"
    unfolding X1 using n_test_4 p
    by (simp add: train_test_split_def split_indices_def shuffle_def eval_nat_numeral)
  have sp2: "train_test_split sk (map text (shuffle [1, 2, 3, 0] ?recs)) (map label (shuffle [1, 2, 3, 0] ?recs)) (3 / 10) 42 =
      ([?X2 ! c, ?X2 ! d], [?X2 ! a, ?X2 ! b],
       [map label (shuffle [1, 2, 3, 0] ?recs) ! c, map label (shuffle [1, 2, 3, 0] ?recs) ! d],
       [map label (shuffle [1, 2, 3, 0] ?recs) ! a, map label (shuffle [1, 2, 3, 0] ?recs) ! b])"
    unfolding X2 using n_test_4 p
    by (simp add: train_test_split_def split_indices_def shuffle_def eval_nat_numeral)
  from run_cells_total [OF sp1] obtain s1 where s1: "run_cells sk [0, 1, 2, 3] ?recs = Inr s1"
    "X_train s1 = [?X1 ! c, ?X1 ! d]" "X_test s1 = [?X1 ! a, ?X1 ! b]"
    by auto
  from run_cells_total [OF sp2] obtain s2 where s2: "run_cells sk [1, 2, 3, 0] ?recs = Inr s2"
    "X_train s2 = [?X2 ! c, ?X2 ! d]" "X_test s2 = [?X2 ! a, ?X2 ! b]"
    by auto
  have dt: "distinct ?X1" by simp
  have "set (X_test s1) \<noteq> set (X_test s2)"
    using rotated_pair [OF dt lt(1,2)] d by (simp add: s1 s2)
  moreover have "set (X_train s1) \<noteq> set (X_train s2)"
    using rotated_pair [OF dt lt(3,4)] d by (simp add: s1 s2)
  ultimately show ?thesis
    using s1(1) s2(1) by (simp add: pipeline_def tiny_records)
qed

theorem unseeded_shuffle_changes_partition_witness:
  "mset (permutation toy_sklearn 42 4) = mset [0..<4] \<and>
   (\<exists>s1 s2. pipeline toy_sklearn tiny_fs [0, 1, 2, 3] = Inr s1 \<and>
           pipeline toy_sklearn tiny_fs [1, 2, 3, 0] = Inr s2 \<and>
           set (X_test s1) \<noteq> set (X_test s2) \<and> set (X_train s1) \<noteq> set (X_train s2))"
proof -
  have h: "mset (permutation toy_sklearn 42 4) = mset [0..<4]"
    by (simp add: toy_sklearn_def)
  from unseeded_shuffle_changes_partition [OF h] h show ?thesis
    by simp
qed

end
